theory Spec2Isabelle
  imports Main "HOL-Library.Word"
begin

section \<open>Archive Compatibility Checker: data model\<close>

text \<open>
  The plugin of \<^verbatim>\<open>ArchiveCompatibilityChecker.py\<close>. Python integers are unbounded, so
  keys and decoded header fields are \<open>int\<close> and \<open>nat\<close>; bytes are \<open>8 word\<close>.
  \<open>enum.auto()\<close> numbers the members of an \<open>IntEnum\<close> from 1 in declaration order.
\<close>

type_synonym byte = "8 word"

datatype Problem = NONE | NOT_A_FILE | WRONG_EXTENSION | WRONG_FORMAT

datatype FileFormat = UNKNOWN | TES3 | TES4 | FO3 | SSE | FO4

datatype py_error = ValueError | IndexError | KeyError | AttributeError | StructError | OSError

fun Problem_value :: "Problem \<Rightarrow> int" where
  "Problem_value NONE = 1"
| "Problem_value NOT_A_FILE = 2"
| "Problem_value WRONG_EXTENSION = 3"
| "Problem_value WRONG_FORMAT = 4"

text \<open>\<open>Problem(key)\<close>: the member with that value, \<open>ValueError\<close> when there is none.\<close>

definition Problem_of :: "int \<Rightarrow> py_error + Problem" where
  "Problem_of key =
     (if key = 1 then Inr NONE
      else if key = 2 then Inr NOT_A_FILE
      else if key = 3 then Inr WRONG_EXTENSION
      else if key = 4 then Inr WRONG_FORMAT
      else Inl ValueError)"

text \<open>
  A \<open>pathlib.Path\<close> is kept as the list of its parts below the anchor; parsing the string
  the host hands over into parts is the library's work. \<open>name\<close> is the last part and
  \<open>suffix\<close> is what \<open>PurePath.suffix\<close> computes from it: the text from the last dot
  on, unless that dot is the first or the last character of the name.
\<close>

type_synonym path = "string list"

fun rfind :: "'a \<Rightarrow> 'a list \<Rightarrow> int" where
  "rfind c [] = - 1"
| "rfind c (x # xs) =
     (let r = rfind c xs in
      if 0 \<le> r then r + 1 else if x = c then 0 else - 1)"

definition path_name :: "path \<Rightarrow> string" where
  "path_name p = (if p = [] then [] else last p)"

definition suffix :: "path \<Rightarrow> string" where
  "suffix p =
     (let name = path_name p; i = rfind (CHR ''.'') name in
      if 0 < i \<and> i < int (length name) - 1 then drop (nat i) name else [])"

record ProblemArchive =
  path :: path
  problem :: Problem

record Description =
  short :: string
  long :: string

text \<open>
  The host object the plugin keeps after \<open>init\<close>: what \<open>findFiles\<close> answers for a
  directory and a glob pattern, and the name of the managed game.
\<close>

record IOrganizer =
  findFiles :: "string \<Rightarrow> string \<Rightarrow> path list"
  gameName :: string

record checker =
  organizer :: "IOrganizer option"
  archives :: "ProblemArchive list"

subsection \<open>The file system and the trace of accesses\<close>

text \<open>
  An entry of the file system answers the three queries the plugin makes: \<open>is_file()\<close>,
  \<open>stat().st_size\<close> and the bytes that reading delivers. The size and the bytes are two
  observations, as in the source; for a regular file at rest they agree (\<open>consistent\<close>).
  Every access is appended to \<open>log\<close>, and so is each entry into the sniffer.
\<close>

record entry =
  is_file :: bool
  st_size :: nat
  content :: "byte list"

datatype io_event =
    Call_getFileFormat path
  | EvIsFile path
  | EvStat path
  | EvOpen path string
  | EvRead path nat nat

record world =
  fs :: "path \<rightharpoonup> entry"
  log :: "io_event list"

definition consistent :: "entry \<Rightarrow> bool" where
  "consistent e \<longleftrightarrow> st_size e = length (content e)"

type_synonym 'a io = "world \<Rightarrow> (py_error + 'a) \<times> world"

definition io_return :: "'a \<Rightarrow> 'a io" where
  "io_return x w = (Inr x, w)"

definition io_lift :: "py_error + 'a \<Rightarrow> 'a io" where
  "io_lift r w = (r, w)"

definition io_bind :: "'a io \<Rightarrow> ('a \<Rightarrow> 'b io) \<Rightarrow> 'b io" where
  "io_bind m f w = (case m w of (Inl e, w') \<Rightarrow> (Inl e, w') | (Inr x, w') \<Rightarrow> f x w')"

definition emit :: "io_event \<Rightarrow> unit io" where
  "emit ev w = (Inr (), w\<lparr>log := log w @ [ev]\<rparr>)"

definition path_is_file :: "path \<Rightarrow> bool io" where
  "path_is_file p w =
     (Inr (case fs w p of None \<Rightarrow> False | Some e \<Rightarrow> is_file e),
      w\<lparr>log := log w @ [EvIsFile p]\<rparr>)"

definition path_stat :: "path \<Rightarrow> nat io" where
  "path_stat p w =
     ((case fs w p of None \<Rightarrow> Inl OSError | Some e \<Rightarrow> Inr (st_size e)),
      w\<lparr>log := log w @ [EvStat p]\<rparr>)"

text \<open>
  An open file is its path and the read position. \<open>open(mode="rb")\<close> fails on a missing
  path and on an entry that is not a regular file; \<open>read(n)\<close> delivers up to \<open>n\<close> bytes
  from the position and advances it by what it delivered.
\<close>

record handle =
  h_path :: path
  h_pos :: nat

definition path_open :: "path \<Rightarrow> handle io" where
  "path_open p w =
     ((case fs w p of
         None \<Rightarrow> Inl OSError
       | Some e \<Rightarrow> if is_file e then Inr \<lparr>h_path = p, h_pos = 0\<rparr> else Inl OSError),
      w\<lparr>log := log w @ [EvOpen p ''rb'']\<rparr>)"

definition file_read :: "handle \<Rightarrow> nat \<Rightarrow> (byte list \<times> handle) io" where
  "file_read h n w =
     ((case fs w (h_path h) of
         None \<Rightarrow> Inl OSError
       | Some e \<Rightarrow>
           (let d = take n (drop (h_pos h) (content e))
            in Inr (d, h\<lparr>h_pos := h_pos h + length d\<rparr>))),
      w\<lparr>log := log w @ [EvRead (h_path h) (h_pos h) n]\<rparr>)"

section \<open>The static tables\<close>

definition supportedGames :: "string set" where
  "supportedGames =
     {''Morrowind'', ''Oblivion'', ''Fallout 3'', ''New Vegas'', ''Skyrim'', ''Fallout 4'',
      ''Skyrim Special Edition'', ''Skyrim VR'', ''Fallout 4 VR''}"

definition gameToExt :: "string \<rightharpoonup> string" where
  "gameToExt =
     (\<lambda>game. if game \<in> supportedGames then Some ''.bsa'' else None)
       (''Fallout 4'' \<mapsto> ''.ba2'', ''Fallout 4 VR'' \<mapsto> ''.ba2'')"

definition gameToFmt :: "string \<rightharpoonup> FileFormat" where
  "gameToFmt =
     (\<lambda>game. if game \<in> supportedGames then Some UNKNOWN else None)
       (''Morrowind'' \<mapsto> TES3, ''Oblivion'' \<mapsto> TES4, ''Fallout 3'' \<mapsto> FO3,
        ''New Vegas'' \<mapsto> FO3, ''Skyrim'' \<mapsto> FO3, ''Fallout 4'' \<mapsto> FO4,
        ''Skyrim Special Edition'' \<mapsto> SSE, ''Skyrim VR'' \<mapsto> SSE, ''Fallout 4 VR'' \<mapsto> FO4)"

definition magics :: "nat \<rightharpoonup> FileFormat" where
  "magics = [0x100 \<mapsto> TES3, 0x00415342 \<mapsto> TES4, 0x58445442 \<mapsto> FO4]"

definition tes4Versions :: "nat \<rightharpoonup> FileFormat" where
  "tes4Versions = [103 \<mapsto> TES4, 104 \<mapsto> FO3, 105 \<mapsto> SSE]"

text \<open>\<open>d.get(k, default)\<close> and \<open>d[k]\<close>, the latter raising \<open>KeyError\<close>.\<close>

definition dict_get :: "('k \<rightharpoonup> 'v) \<Rightarrow> 'k \<Rightarrow> 'v \<Rightarrow> 'v" where
  "dict_get d k dflt = (case d k of None \<Rightarrow> dflt | Some v \<Rightarrow> v)"

definition dict_getitem :: "('k \<rightharpoonup> 'v) \<Rightarrow> 'k \<Rightarrow> py_error + 'v" where
  "dict_getitem d k = (case d k of None \<Rightarrow> Inl KeyError | Some v \<Rightarrow> Inr v)"

text \<open>\<open>struct.Struct("<I").unpack\<close>: exactly four bytes, least significant first.\<close>

fun u32_unpack :: "byte list \<Rightarrow> py_error + nat" where
  "u32_unpack [b0, b1, b2, b3] =
     Inr (unat b0 + 256 * unat b1 + 65536 * unat b2 + 16777216 * unat b3)"
| "u32_unpack _ = Inl StructError"

section \<open>The operations\<close>

text \<open>
  \<open>__init__\<close> leaves the organizer unset and the list empty; \<open>init\<close> stores the host
  object and answers \<open>True\<close>. Without an organizer every use of it raises
  \<open>AttributeError\<close>.
\<close>

definition new_checker :: checker where
  "new_checker = \<lparr>organizer = None, archives = []\<rparr>"

definition init :: "checker \<Rightarrow> IOrganizer \<Rightarrow> bool \<times> checker" where
  "init self org = (True, self\<lparr>organizer := Some org\<rparr>)"

definition getCurrentGame :: "checker \<Rightarrow> py_error + string" where
  "getCurrentGame self =
     (case organizer self of None \<Rightarrow> Inl AttributeError | Some org \<Rightarrow> Inr (gameName org))"

definition getFileFormat :: "path \<Rightarrow> FileFormat io" where
  "getFileFormat p =
     io_bind (emit (Call_getFileFormat p)) (\<lambda>_.
     io_bind (path_stat p) (\<lambda>size.
       if size < 4 then io_return UNKNOWN
       else
         io_bind (path_open p) (\<lambda>file.
         io_bind (file_read file 4) (\<lambda>(d1, file1).
         io_bind (io_lift (u32_unpack d1)) (\<lambda>magic.
           let fmt = dict_get magics magic UNKNOWN in
           if fmt = TES4 then
             if size < 8 then io_return UNKNOWN
             else
               io_bind (file_read file1 4) (\<lambda>(d2, file2).
               io_bind (io_lift (u32_unpack d2)) (\<lambda>version.
                 io_return (dict_get tes4Versions version UNKNOWN)))
           else io_return fmt)))))"

definition validateArchive :: "checker \<Rightarrow> path \<Rightarrow> Problem io" where
  "validateArchive self p =
     io_bind (path_is_file p) (\<lambda>isf.
       if \<not> isf then io_return NOT_A_FILE
       else
         io_bind (io_lift (getCurrentGame self)) (\<lambda>game.
         io_bind (io_lift (dict_getitem gameToExt game)) (\<lambda>ext.
           if suffix p \<noteq> ext then io_return WRONG_EXTENSION
           else
             io_bind (getFileFormat p) (\<lambda>fmt.
             io_bind (io_lift (getCurrentGame self)) (\<lambda>game2.
             io_bind (io_lift (dict_getitem gameToFmt game2)) (\<lambda>expected.
               if fmt \<noteq> expected then io_return WRONG_FORMAT
               else io_return NONE))))))"

text \<open>
  The generator \<open>__listBadArchives\<close>, run to its end by \<open>list(...)\<close>: the loop over the
  files the host enumerates, yielding a record for every problem other than \<open>NONE\<close>.
\<close>

fun listBadArchives_loop :: "checker \<Rightarrow> path list \<Rightarrow> ProblemArchive list io" where
  "listBadArchives_loop self [] = io_return []"
| "listBadArchives_loop self (file # files) =
     io_bind (validateArchive self file) (\<lambda>pr.
     io_bind (listBadArchives_loop self files) (\<lambda>rest.
       io_return (if pr \<noteq> NONE then \<lparr>path = file, problem = pr\<rparr> # rest else rest)))"

definition listBadArchives :: "checker \<Rightarrow> ProblemArchive list io" where
  "listBadArchives self =
     (case organizer self of
        None \<Rightarrow> io_lift (Inl AttributeError)
      | Some org \<Rightarrow> listBadArchives_loop self (findFiles org [] ''*.b[sa][a2]''))"

text \<open>
  \<open>activeProblems\<close> stores the list and returns the set of its problem values as a list.
  The values are 2, 3 and 4, which a CPython set iterates in ascending order. When the
  generator raises, the assignment to \<open>__archives\<close> is never reached.
\<close>

definition activeProblems :: "checker \<Rightarrow> world \<Rightarrow> (py_error + int list) \<times> checker \<times> world" where
  "activeProblems self w =
     (case listBadArchives self w of
        (Inl e, w') \<Rightarrow> (Inl e, self, w')
      | (Inr xs, w') \<Rightarrow>
          (Inr (sorted_list_of_set (set (map (\<lambda>x. Problem_value (problem x)) xs))),
           self\<lparr>archives := xs\<rparr>, w'))"

definition hasGuidedFix :: "checker \<Rightarrow> int \<Rightarrow> py_error + bool" where
  "hasGuidedFix self key =
     (case Problem_of key of
        Inl e \<Rightarrow> Inl e
      | Inr pr \<Rightarrow> if pr \<noteq> NONE then Inr False else Inl IndexError)"

definition startGuidedFix :: "checker \<Rightarrow> int \<Rightarrow> py_error + unit" where
  "startGuidedFix self key = Inl ValueError"


section \<open>Runs from a file system\<close>

text \<open>
  The result and the trace of an operation started on a file system with an empty log.
  An operation is \<open>framed\<close> when, from any world, it returns that result, appends that
  trace and changes nothing else.
\<close>

definition result_of :: "'a io \<Rightarrow> (path \<rightharpoonup> entry) \<Rightarrow> py_error + 'a" where
  "result_of m fsys = fst (m \<lparr>fs = fsys, log = []\<rparr>)"

definition trace_of :: "'a io \<Rightarrow> (path \<rightharpoonup> entry) \<Rightarrow> io_event list" where
  "trace_of m fsys = log (snd (m \<lparr>fs = fsys, log = []\<rparr>))"

definition framed :: "'a io \<Rightarrow> bool" where
  "framed m \<longleftrightarrow>
     (\<forall>w. m w = (result_of m (fs w), w\<lparr>log := log w @ trace_of m (fs w)\<rparr>))"

definition new_events :: "world \<Rightarrow> world \<Rightarrow> io_event list" where
  "new_events w w' = drop (length (log w)) (log w')"

definition regular_file :: "(path \<rightharpoonup> entry) \<Rightarrow> path \<Rightarrow> bool" where
  "regular_file fsys p = (case fsys p of None \<Rightarrow> False | Some e \<Rightarrow> is_file e)"


text \<open>
  The accesses that leave every file as it is: the queries, an open for reading in binary
  mode, and a read inside the first eight bytes.
\<close>

fun read_only_access :: "io_event \<Rightarrow> bool" where
  "read_only_access (EvOpen p mode) = (mode = ''rb'')"
| "read_only_access (EvRead p off n) = (off + n \<le> 8)"
| "read_only_access _ = True"

section \<open>The header decoding as the specification words it\<close>

text \<open>
  A little-endian number, and the two static tables read as total functions that answer
  \<open>UNKNOWN\<close> for every key they do not hold.
\<close>

definition le_u32 :: "byte list \<Rightarrow> nat" where
  "le_u32 bs = foldr (\<lambda>b acc. unat b + 256 * acc) bs 0"

definition magic_to_format :: "nat \<Rightarrow> FileFormat" where
  "magic_to_format m =
     (if m = 0x100 then TES3 else if m = 0x00415342 then TES4
      else if m = 0x58445442 then FO4 else UNKNOWN)"

definition version_to_format :: "nat \<Rightarrow> FileFormat" where
  "version_to_format v =
     (if v = 103 then TES4 else if v = 104 then FO3 else if v = 105 then SSE else UNKNOWN)"

fun is_read :: "io_event \<Rightarrow> bool" where
  "is_read (EvRead p off n) = True"
| "is_read _ = False"

fun bytes_requested :: "io_event list \<Rightarrow> nat" where
  "bytes_requested [] = 0"
| "bytes_requested (EvRead p off n # evs) = n + bytes_requested evs"
| "bytes_requested (_ # evs) = bytes_requested evs"


section \<open>What a scan should store, and when the sniffer runs\<close>

text \<open>
  The list the specification describes for a scan: the enumerated files whose validation
  yields a problem other than \<open>NONE\<close>, each with its problem, in enumeration order. And
  the condition under which validation reaches the sniffer: a regular file whose suffix is
  the extension of the current game.
\<close>

definition expected_archives :: "checker \<Rightarrow> (path \<rightharpoonup> entry) \<Rightarrow> path list \<Rightarrow> ProblemArchive list" where
  "expected_archives self fsys files =
     List.map_filter
       (\<lambda>q. case result_of (validateArchive self q) fsys of
               Inl err \<Rightarrow> None
             | Inr pr \<Rightarrow> if pr \<noteq> NONE then Some \<lparr>path = q, problem = pr\<rparr> else None)
       files"

definition sniffed :: "checker \<Rightarrow> (path \<rightharpoonup> entry) \<Rightarrow> path \<Rightarrow> bool" where
  "sniffed self fsys p \<longleftrightarrow>
     regular_file fsys p \<and>
     (case getCurrentGame self of
        Inl err \<Rightarrow> False
      | Inr game \<Rightarrow> gameToExt game = Some (suffix p))"

section \<open>Sample installations\<close>

text \<open>
  A small file system for the concrete runs below: two archives of the \<open>BSA\<close> family
  (versions 104 and 105), one \<open>BTDX\<close> archive, a directory with an archive's name, and
  two truncated files.
\<close>

definition regular_entry :: "byte list \<Rightarrow> entry" where
  "regular_entry bs = \<lparr>is_file = True, st_size = length bs, content = bs\<rparr>"

definition bsa_header :: "byte \<Rightarrow> byte list" where
  "bsa_header v = [0x42, 0x53, 0x41, 0x00, v, 0, 0, 0]"

definition bsa_file :: "byte \<Rightarrow> entry" where
  "bsa_file v = regular_entry (bsa_header v)"

definition example_fs :: "path \<rightharpoonup> entry" where
  "example_fs =
     [[''a.bsa''] \<mapsto> bsa_file 104,
      [''b.ba2''] \<mapsto> regular_entry [0x42, 0x54, 0x44, 0x58, 1, 0, 0, 0],
      [''c.bsa''] \<mapsto> bsa_file 105,
      [''d.bsa''] \<mapsto> \<lparr>is_file = False, st_size = 0, content = []\<rparr>,
      [''e.bsa''] \<mapsto> regular_entry [0x42, 0x53],
      [''f.bsa''] \<mapsto> regular_entry [0x42, 0x53, 0x41, 0x00, 104, 0],
      [''g.bsa''] \<mapsto> regular_entry (bsa_header 104 @ [1, 2, 3, 4]),
      [''h.bsa''] \<mapsto> regular_entry (bsa_header 104 @ [9, 9, 9, 9])]"

text \<open>A freshly created plugin, initialised by a host that enumerates the given files.\<close>

definition example_checker :: "string \<Rightarrow> path list \<Rightarrow> checker" where
  "example_checker game files =
     snd (init new_checker \<lparr>findFiles = (\<lambda>dir pattern. files), gameName = game\<rparr>)"

definition example_files :: "path list" where
  "example_files = [[''a.bsa''], [''b.ba2''], [''c.bsa''], [''d.bsa'']]"

section \<open>Framing\<close>

lemma framedI:
  assumes "\<And>w. m w = (r (fs w), w\<lparr>log := log w @ t (fs w)\<rparr>)"
  shows "framed m"
  unfolding framed_def result_of_def trace_of_def
  by (simp add: assms)

lemma framedD:
  "framed m \<Longrightarrow> m w = (result_of m (fs w), w\<lparr>log := log w @ trace_of m (fs w)\<rparr>)"
  by (simp add: framed_def)

lemma framed_return: "framed (io_return x)"
  by (rule framedI [where r = "\<lambda>_. Inr x" and t = "\<lambda>_. []"]) (simp add: io_return_def)

lemma framed_lift: "framed (io_lift r)"
  by (rule framedI [where r = "\<lambda>_. r" and t = "\<lambda>_. []"]) (simp add: io_lift_def)

lemma framed_emit: "framed (emit ev)"
  by (rule framedI [where r = "\<lambda>_. Inr ()" and t = "\<lambda>_. [ev]"]) (simp add: emit_def)

lemma framed_is_file: "framed (path_is_file p)"
  by (rule framedI [where t = "\<lambda>_. [EvIsFile p]"
        and r = "\<lambda>f. Inr (case f p of None \<Rightarrow> False | Some e \<Rightarrow> is_file e)"])
     (simp add: path_is_file_def)

lemma framed_stat: "framed (path_stat p)"
  by (rule framedI [where t = "\<lambda>_. [EvStat p]"
        and r = "\<lambda>f. case f p of None \<Rightarrow> Inl OSError | Some e \<Rightarrow> Inr (st_size e)"])
     (simp add: path_stat_def)

lemma framed_open: "framed (path_open p)"
  by (rule framedI [where t = "\<lambda>_. [EvOpen p ''rb'']"
        and r = "\<lambda>f. case f p of None \<Rightarrow> Inl OSError
                 | Some e \<Rightarrow> if is_file e then Inr \<lparr>h_path = p, h_pos = 0\<rparr> else Inl OSError"])
     (simp add: path_open_def)

lemma framed_read: "framed (file_read h n)"
  by (rule framedI [where t = "\<lambda>_. [EvRead (h_path h) (h_pos h) n]"
        and r = "\<lambda>f. case f (h_path h) of None \<Rightarrow> Inl OSError
                 | Some e \<Rightarrow> (let d = take n (drop (h_pos h) (content e))
                               in Inr (d, h\<lparr>h_pos := h_pos h + length d\<rparr>))"])
     (simp add: file_read_def)

lemma bind_run:
  assumes "framed m" and "\<And>x. framed (f x)"
  shows "io_bind m f w =
     (case result_of m (fs w) of
        Inl e \<Rightarrow> (Inl e, w\<lparr>log := log w @ trace_of m (fs w)\<rparr>)
      | Inr x \<Rightarrow> (result_of (f x) (fs w),
                 w\<lparr>log := log w @ trace_of m (fs w) @ trace_of (f x) (fs w)\<rparr>))"
proof (cases "result_of m (fs w)")
  case (Inl e)
  then show ?thesis
    using framedD [OF assms(1), of w] by (simp add: io_bind_def)
next
  case (Inr x)
  then show ?thesis
    using framedD [OF assms(1), of w]
      framedD [OF assms(2), of x "w\<lparr>log := log w @ trace_of m (fs w)\<rparr>"]
    by (simp add: io_bind_def)
qed

lemma framed_bind:
  assumes "framed m" and "\<And>x. framed (f x)"
  shows "framed (io_bind m f)"
  by (rule framedI [where
        r = "\<lambda>fsys. case result_of m fsys of Inl e \<Rightarrow> Inl e | Inr x \<Rightarrow> result_of (f x) fsys"
        and t = "\<lambda>fsys. trace_of m fsys @
                  (case result_of m fsys of Inl e \<Rightarrow> [] | Inr x \<Rightarrow> trace_of (f x) fsys)"])
     (simp add: bind_run [OF assms] split: sum.splits)

lemma result_of_bind:
  assumes "framed m" and "\<And>x. framed (f x)"
  shows "result_of (io_bind m f) fsys =
     (case result_of m fsys of Inl e \<Rightarrow> Inl e | Inr x \<Rightarrow> result_of (f x) fsys)"
  unfolding result_of_def [of "io_bind m f"]
  by (simp add: bind_run [OF assms] split: sum.splits)

lemma trace_of_bind:
  assumes "framed m" and "\<And>x. framed (f x)"
  shows "trace_of (io_bind m f) fsys =
     trace_of m fsys @ (case result_of m fsys of Inl e \<Rightarrow> [] | Inr x \<Rightarrow> trace_of (f x) fsys)"
  unfolding trace_of_def [of "io_bind m f"]
  by (simp add: bind_run [OF assms] split: sum.splits)

lemma framed_if: "framed a \<Longrightarrow> framed b \<Longrightarrow> framed (if c then a else b)"
  by simp

lemma framed_case_prod: "(\<And>a b. framed (f a b)) \<Longrightarrow> framed (case x of (a, b) \<Rightarrow> f a b)"
  by (cases x) simp

lemma framed_getFileFormat: "framed (getFileFormat p)"
  unfolding getFileFormat_def Let_def
  by (intro framed_bind framed_if framed_case_prod framed_return framed_lift framed_emit
        framed_stat framed_open framed_read)

lemma framed_validateArchive: "framed (validateArchive self p)"
  unfolding validateArchive_def
  by (intro framed_bind framed_if framed_return framed_lift framed_is_file
        framed_getFileFormat)

lemma framed_loop: "framed (listBadArchives_loop self files)"
  by (induction files)
     (auto intro!: framed_bind framed_return framed_validateArchive)

lemma framed_listBadArchives: "framed (listBadArchives self)"
  by (simp add: listBadArchives_def framed_lift framed_loop split: option.splits)



section \<open>The sniffer, unfolded\<close>

lemmas io_defs = io_return_def io_lift_def io_bind_def emit_def path_is_file_def path_stat_def
  path_open_def file_read_def

lemma getFileFormat_unfold:
  assumes "fs w p = Some e"
  shows "getFileFormat p w =
     (if st_size e < 4 then (Inr UNKNOWN, w\<lparr>log := log w @ [Call_getFileFormat p, EvStat p]\<rparr>)
      else if \<not> is_file e then
        (Inl OSError, w\<lparr>log := log w @ [Call_getFileFormat p, EvStat p, EvOpen p ''rb'']\<rparr>)
      else
        (case u32_unpack (take 4 (content e)) of
           Inl err \<Rightarrow>
             (Inl err, w\<lparr>log := log w @ [Call_getFileFormat p, EvStat p, EvOpen p ''rb'', EvRead p 0 4]\<rparr>)
         | Inr magic \<Rightarrow>
             if dict_get magics magic UNKNOWN = TES4 \<and> 8 \<le> st_size e then
               (case u32_unpack (take 4 (drop (length (take 4 (content e))) (content e))) of
                  Inl err \<Rightarrow> Inl err
                | Inr version \<Rightarrow> Inr (dict_get tes4Versions version UNKNOWN),
                w\<lparr>log := log w @ [Call_getFileFormat p, EvStat p, EvOpen p ''rb'', EvRead p 0 4,
                      EvRead p (length (take 4 (content e))) 4]\<rparr>)
             else
               (Inr (if dict_get magics magic UNKNOWN = TES4 then UNKNOWN
                     else dict_get magics magic UNKNOWN),
                w\<lparr>log := log w @ [Call_getFileFormat p, EvStat p, EvOpen p ''rb'', EvRead p 0 4]\<rparr>)))"
  using assms
  by (auto simp: getFileFormat_def io_defs Let_def split: sum.splits)

lemma getFileFormat_missing:
  assumes "fs w p = None"
  shows "getFileFormat p w = (Inl OSError, w\<lparr>log := log w @ [Call_getFileFormat p, EvStat p]\<rparr>)"
  using assms by (simp add: getFileFormat_def io_defs)

lemma u32_unpack_length: "u32_unpack bs = Inr m \<Longrightarrow> length bs = 4"
  by (induction bs rule: u32_unpack.induct) simp_all

lemma u32_unpack_le: "length bs = 4 \<Longrightarrow> u32_unpack bs = Inr (le_u32 bs)"
  by (induction bs rule: u32_unpack.induct) (simp_all add: le_u32_def)

lemma u32_unpack_short: "length bs \<noteq> 4 \<Longrightarrow> u32_unpack bs = Inl StructError"
  by (induction bs rule: u32_unpack.induct) simp_all

lemma magics_get: "dict_get magics m UNKNOWN = magic_to_format m"
  by (simp add: dict_get_def magics_def magic_to_format_def)

lemma tes4Versions_get: "dict_get tes4Versions v UNKNOWN = version_to_format v"
  by (simp add: dict_get_def tes4Versions_def version_to_format_def)

text \<open>The sniffer on a regular file whose size is the number of its bytes.\<close>

lemma sniff_regular:
  assumes "fsys p = Some e" "is_file e" "consistent e"
  shows "result_of (getFileFormat p) fsys =
      Inr (if st_size e < 4 then UNKNOWN
           else (let fmt = magic_to_format (le_u32 (take 4 (content e))) in
             if fmt = TES4 then
               (if st_size e < 8 then UNKNOWN
                else version_to_format (le_u32 (take 4 (drop 4 (content e)))))
             else fmt))"
    and "trace_of (getFileFormat p) fsys =
      [Call_getFileFormat p, EvStat p] @
      (if st_size e < 4 then []
       else [EvOpen p ''rb'', EvRead p 0 4] @
         (if magic_to_format (le_u32 (take 4 (content e))) = TES4 \<and> 8 \<le> st_size e
          then [EvRead p 4 4] else []))"
proof -
  let ?w = "\<lparr>fs = fsys, log = []\<rparr>"
  have len: "length (content e) = st_size e"
    using assms(3) by (simp add: consistent_def)
  have first: "u32_unpack (take 4 (content e)) = Inr (le_u32 (take 4 (content e)))"
    if "4 \<le> st_size e"
    using that len by (simp add: u32_unpack_le)
  have second: "u32_unpack (take 4 (drop 4 (content e))) = Inr (le_u32 (take 4 (drop 4 (content e))))"
    if "8 \<le> st_size e"
    using that len by (simp add: u32_unpack_le)
  have u: "getFileFormat p ?w = (if st_size e < 4 then (Inr UNKNOWN, ?w\<lparr>log := [Call_getFileFormat p, EvStat p]\<rparr>)
      else if dict_get magics (le_u32 (take 4 (content e))) UNKNOWN = TES4 \<and> 8 \<le> st_size e
      then (Inr (dict_get tes4Versions (le_u32 (take 4 (drop 4 (content e)))) UNKNOWN),
              ?w\<lparr>log := [Call_getFileFormat p, EvStat p, EvOpen p ''rb'', EvRead p 0 4, EvRead p 4 4]\<rparr>)
      else (Inr (if dict_get magics (le_u32 (take 4 (content e))) UNKNOWN = TES4 then UNKNOWN
                     else dict_get magics (le_u32 (take 4 (content e))) UNKNOWN),
              ?w\<lparr>log := [Call_getFileFormat p, EvStat p, EvOpen p ''rb'', EvRead p 0 4]\<rparr>))"
  proof (cases "st_size e < 4")
    case True
    then show ?thesis
      by (simp add: getFileFormat_unfold [of ?w p e] assms(1))
  next
    case False
    then have four: "4 \<le> st_size e" by simp
    show ?thesis
    proof (cases "8 \<le> st_size e")
      case True
      then show ?thesis
        using assms(2) len four
        by (simp add: getFileFormat_unfold [of ?w p e] assms(1) first second)
    next
      case False
      then show ?thesis
        using assms(2) len four
        by (simp add: getFileFormat_unfold [of ?w p e] assms(1) first)
    qed
  qed
  show "result_of (getFileFormat p) fsys =
      Inr (if st_size e < 4 then UNKNOWN
           else (let fmt = magic_to_format (le_u32 (take 4 (content e))) in
             if fmt = TES4 then
               (if st_size e < 8 then UNKNOWN
                else version_to_format (le_u32 (take 4 (drop 4 (content e)))))
             else fmt))"
    unfolding result_of_def u by (simp add: magics_get tes4Versions_get Let_def)
  show "trace_of (getFileFormat p) fsys =
      [Call_getFileFormat p, EvStat p] @
      (if st_size e < 4 then []
       else [EvOpen p ''rb'', EvRead p 0 4] @
         (if magic_to_format (le_u32 (take 4 (content e))) = TES4 \<and> 8 \<le> st_size e
          then [EvRead p 4 4] else []))"
    unfolding trace_of_def u by (simp add: magics_get)
qed

text \<open>Every run of the sniffer, whatever the entry: the shapes its trace can take.\<close>

lemma sniff_trace_shapes:
  "trace_of (getFileFormat p) fsys \<in>
     {[Call_getFileFormat p, EvStat p],
      [Call_getFileFormat p, EvStat p, EvOpen p ''rb''],
      [Call_getFileFormat p, EvStat p, EvOpen p ''rb'', EvRead p 0 4],
      [Call_getFileFormat p, EvStat p, EvOpen p ''rb'', EvRead p 0 4, EvRead p 4 4]}"
proof (cases "fsys p")
  case None
  then show ?thesis
    by (simp add: trace_of_def getFileFormat_missing)
next
  case (Some e)
  then show ?thesis
    by (auto simp: trace_of_def getFileFormat_unfold [of _ p e] dest: u32_unpack_length
        split: sum.splits)
qed



text \<open>The result as a function of the kind, the size and the first eight bytes.\<close>

lemma sniff_result_header:
  assumes "fsys p = Some e" and "is_file e = b" and "st_size e = n"
    and "take 8 (content e) = h"
  shows "result_of (getFileFormat p) fsys =
     (if n < 4 then Inr UNKNOWN
      else if \<not> b then Inl OSError
      else
        (case u32_unpack (take 4 h) of
           Inl err \<Rightarrow> Inl err
         | Inr magic \<Rightarrow>
             if dict_get magics magic UNKNOWN = TES4 \<and> 8 \<le> n then
               (case u32_unpack (take 4 (drop 4 h)) of
                  Inl err \<Rightarrow> Inl err
                | Inr version \<Rightarrow> Inr (dict_get tes4Versions version UNKNOWN))
             else
               Inr (if dict_get magics magic UNKNOWN = TES4 then UNKNOWN
                    else dict_get magics magic UNKNOWN)))"
proof -
  have t4: "take 4 h = take 4 (content e)"
    unfolding assms(4) [symmetric] by simp
  have d4: "take 4 (drop 4 h) = take 4 (drop 4 (content e))"
    unfolding assms(4) [symmetric] by (simp add: drop_take)
  have len: "length (take 4 (content e)) = 4" if "u32_unpack (take 4 (content e)) = Inr m" for m
    using that by (rule u32_unpack_length)
  show ?thesis
    unfolding result_of_def t4 d4 assms(2,3) [symmetric]
    using len
    by (auto simp: getFileFormat_unfold [of _ p e] assms(1) split: sum.splits
        simp del: length_take)
qed

section \<open>Validation, unfolded\<close>

lemmas framed_intros = framed_bind framed_if framed_case_prod framed_return framed_lift
  framed_emit framed_is_file framed_stat framed_open framed_read framed_getFileFormat

lemma run_is_file:
  "result_of (path_is_file p) fsys = Inr (regular_file fsys p)"
  "trace_of (path_is_file p) fsys = [EvIsFile p]"
  by (simp_all add: result_of_def trace_of_def path_is_file_def regular_file_def)

lemma run_lift:
  "result_of (io_lift r) fsys = r"
  "trace_of (io_lift r) fsys = []"
  by (simp_all add: result_of_def trace_of_def io_lift_def)

lemma run_return:
  "result_of (io_return x) fsys = Inr x"
  "trace_of (io_return x) fsys = []"
  by (simp_all add: result_of_def trace_of_def io_return_def)

lemma validate_result:
  "result_of (validateArchive self p) fsys =
     (if \<not> regular_file fsys p then Inr NOT_A_FILE
      else case getCurrentGame self of
        Inl err \<Rightarrow> Inl err
      | Inr game \<Rightarrow>
         (case gameToExt game of
            None \<Rightarrow> Inl KeyError
          | Some ext \<Rightarrow>
              if suffix p \<noteq> ext then Inr WRONG_EXTENSION
              else case result_of (getFileFormat p) fsys of
                Inl err \<Rightarrow> Inl err
              | Inr fmt \<Rightarrow>
                 (case gameToFmt game of
                    None \<Rightarrow> Inl KeyError
                  | Some expected \<Rightarrow> Inr (if fmt \<noteq> expected then WRONG_FORMAT else NONE))))"
  unfolding validateArchive_def
  by (simp add: result_of_bind framed_intros run_is_file run_lift run_return dict_getitem_def
      split: sum.splits option.splits)

lemma validate_trace:
  "trace_of (validateArchive self p) fsys =
     EvIsFile p #
     (if regular_file fsys p \<and>
         (\<exists>game. getCurrentGame self = Inr game \<and> gameToExt game = Some (suffix p))
      then trace_of (getFileFormat p) fsys else [])"
  unfolding validateArchive_def
  by (auto simp add: trace_of_bind result_of_bind framed_intros run_is_file run_lift run_return
      dict_getitem_def split: sum.splits option.splits)

section \<open>The scan, unfolded\<close>

lemma dom_if_member: "dom (\<lambda>k. if k \<in> S then Some v else None) = S"
  by (auto simp: dom_def)

lemma supported_members:
  "''Morrowind'' \<in> supportedGames" "''Oblivion'' \<in> supportedGames"
  "''Fallout 3'' \<in> supportedGames" "''New Vegas'' \<in> supportedGames"
  "''Skyrim'' \<in> supportedGames" "''Fallout 4'' \<in> supportedGames"
  "''Skyrim Special Edition'' \<in> supportedGames" "''Skyrim VR'' \<in> supportedGames"
  "''Fallout 4 VR'' \<in> supportedGames"
  by (simp_all add: supportedGames_def)

lemma dom_gameToExt: "dom gameToExt = supportedGames"
  unfolding gameToExt_def
  by (simp only: dom_fun_upd dom_if_member option.distinct if_False insert_absorb
      supported_members)

lemma dom_gameToFmt: "dom gameToFmt = supportedGames"
  unfolding gameToFmt_def
  by (simp only: dom_fun_upd dom_if_member option.distinct if_False insert_absorb
      supported_members)

lemma loop_result_Cons:
  "result_of (listBadArchives_loop self (file # files)) fsys =
     (case result_of (validateArchive self file) fsys of
        Inl err \<Rightarrow> Inl err
      | Inr pr \<Rightarrow>
         (case result_of (listBadArchives_loop self files) fsys of
            Inl err \<Rightarrow> Inl err
          | Inr rest \<Rightarrow> Inr (if pr \<noteq> NONE then \<lparr>path = file, problem = pr\<rparr> # rest else rest)))"
  by (simp add: result_of_bind framed_validateArchive framed_loop framed_bind framed_return
      run_return split: sum.splits)

lemma loop_trace_Cons:
  "trace_of (listBadArchives_loop self (file # files)) fsys =
     trace_of (validateArchive self file) fsys @
     (case result_of (validateArchive self file) fsys of
        Inl err \<Rightarrow> []
      | Inr pr \<Rightarrow> trace_of (listBadArchives_loop self files) fsys)"
  by (simp add: trace_of_bind result_of_bind framed_validateArchive framed_loop framed_bind
      framed_return run_return split: sum.splits)

lemma loop_Nil:
  "result_of (listBadArchives_loop self []) fsys = Inr []"
  "trace_of (listBadArchives_loop self []) fsys = []"
  by (simp_all add: run_return)

declare listBadArchives_loop.simps [simp del]

lemma activeProblems_run:
  "activeProblems self w =
     (case result_of (listBadArchives self) (fs w) of
        Inl err \<Rightarrow> (Inl err, self, w\<lparr>log := log w @ trace_of (listBadArchives self) (fs w)\<rparr>)
      | Inr xs \<Rightarrow>
          (Inr (sorted_list_of_set (set (map (\<lambda>x. Problem_value (problem x)) xs))),
           self\<lparr>archives := xs\<rparr>,
           w\<lparr>log := log w @ trace_of (listBadArchives self) (fs w)\<rparr>))"
  by (simp add: activeProblems_def framedD [OF framed_listBadArchives, of self w]
      split: sum.splits)

lemma new_events_append [simp]: "new_events w (w\<lparr>log := log w @ t\<rparr>) = t"
  by (simp add: new_events_def)

lemma listBadArchives_Some:
  "organizer self = Some org \<Longrightarrow>
     listBadArchives self = listBadArchives_loop self (findFiles org [] ''*.b[sa][a2]'')"
  by (simp add: listBadArchives_def)

lemma listBadArchives_None:
  assumes "organizer self = None"
  shows "result_of (listBadArchives self) fsys = Inl AttributeError"
    and "trace_of (listBadArchives self) fsys = []"
  using assms by (simp_all add: listBadArchives_def run_lift)

lemma loop_expected:
  "result_of (listBadArchives_loop self files) fsys = Inr xs \<Longrightarrow>
     xs = expected_archives self fsys files"
proof (induction files arbitrary: xs)
  case Nil
  then show ?case by (simp add: loop_Nil expected_archives_def map_filter_simps)
next
  case (Cons a files)
  then show ?case
    by (auto simp: loop_result_Cons expected_archives_def map_filter_simps
        split: sum.splits if_splits)
qed

lemma loop_no_NONE:
  "result_of (listBadArchives_loop self files) fsys = Inr xs \<Longrightarrow>
     \<forall>x \<in> set xs. problem x \<noteq> NONE"
proof (induction files arbitrary: xs)
  case Nil
  then show ?case by (simp add: loop_Nil)
next
  case (Cons a files)
  then show ?case
    by (auto simp: loop_result_Cons split: sum.splits if_splits)
qed

lemma loop_read_only:
  "\<forall>ev \<in> set (trace_of (listBadArchives_loop self files) fsys). read_only_access ev"
proof (induction files)
  case Nil
  then show ?case by (simp add: loop_Nil)
next
  case (Cons a files)
  have v: "\<forall>ev \<in> set (trace_of (validateArchive self a) fsys). read_only_access ev"
    using sniff_trace_shapes [of a fsys] by (auto simp: validate_trace)
  show ?case
    using Cons v by (auto simp: loop_trace_Cons split: sum.splits)
qed

lemma sniff_trace_counts:
  "count_list (trace_of (getFileFormat p) fsys) (Call_getFileFormat q) = (if q = p then 1 else 0)"
  "count_list (trace_of (getFileFormat p) fsys) (EvIsFile q) = 0"
  using sniff_trace_shapes [of p fsys] by auto

lemma validate_trace_counts:
  assumes "result_of (validateArchive self p) fsys = Inr pr"
  shows "count_list (trace_of (validateArchive self p) fsys) (Call_getFileFormat q) =
           (if q = p \<and> sniffed self fsys p then 1 else 0)"
    and "count_list (trace_of (validateArchive self p) fsys) (EvIsFile q) =
           (if q = p then 1 else 0)"
  using assms
  by (auto simp: validate_trace validate_result sniffed_def sniff_trace_counts
      split: sum.splits option.splits if_splits)

lemma loop_counts:
  "result_of (listBadArchives_loop self files) fsys = Inr xs \<Longrightarrow>
     count_list (trace_of (listBadArchives_loop self files) fsys) (Call_getFileFormat q) =
       (if sniffed self fsys q then count_list files q else 0) \<and>
     count_list (trace_of (listBadArchives_loop self files) fsys) (EvIsFile q) =
       count_list files q"
proof (induction files arbitrary: xs)
  case Nil
  then show ?case by (simp add: loop_Nil)
next
  case (Cons a files)
  from Cons.prems obtain pr rest
    where pr: "result_of (validateArchive self a) fsys = Inr pr"
      and rest: "result_of (listBadArchives_loop self files) fsys = Inr rest"
    by (auto simp: loop_result_Cons split: sum.splits)
  show ?case
    using Cons.IH [OF rest] validate_trace_counts [OF pr, of q]
    by (simp add: loop_trace_Cons pr)
qed

lemma scan_read_only:
  "\<forall>ev \<in> set (trace_of (listBadArchives self) fsys). read_only_access ev"
proof (cases "organizer self")
  case None
  then show ?thesis by (simp add: listBadArchives_None)
next
  case (Some org)
  then show ?thesis
    using loop_read_only [of self "findFiles org [] ''*.b[sa][a2]''" fsys]
    by (simp add: listBadArchives_Some)
qed

lemma validate_trace_sniffed:
  "trace_of (validateArchive self p) fsys =
     EvIsFile p # (if sniffed self fsys p then trace_of (getFileFormat p) fsys else [])"
  by (auto simp: validate_trace sniffed_def split: sum.splits)

lemma loop_trace_concat:
  "result_of (listBadArchives_loop self files) fsys = Inr xs \<Longrightarrow>
     trace_of (listBadArchives_loop self files) fsys =
       concat (map (\<lambda>q. EvIsFile q #
                 (if sniffed self fsys q then trace_of (getFileFormat q) fsys else [])) files)"
proof (induction files arbitrary: xs)
  case Nil
  then show ?case by (simp add: loop_Nil)
next
  case (Cons a files)
  from Cons.prems obtain pr rest
    where pr: "result_of (validateArchive self a) fsys = Inr pr"
      and rest: "result_of (listBadArchives_loop self files) fsys = Inr rest"
    by (auto simp: loop_result_Cons split: sum.splits)
  show ?case
    using Cons.IH [OF rest]
    by (simp add: loop_trace_Cons pr validate_trace_sniffed)
qed

section \<open>Sample runs\<close>

lemma example_entries:
  "example_fs [''a.bsa''] = Some (bsa_file 104)"
  "example_fs [''b.ba2''] = Some (regular_entry [0x42, 0x54, 0x44, 0x58, 1, 0, 0, 0])"
  "example_fs [''c.bsa''] = Some (bsa_file 105)"
  "example_fs [''d.bsa''] = Some \<lparr>is_file = False, st_size = 0, content = []\<rparr>"
  "example_fs [''e.bsa''] = Some (regular_entry [0x42, 0x53])"
  "example_fs [''f.bsa''] = Some (regular_entry [0x42, 0x53, 0x41, 0x00, 104, 0])"
  "example_fs [''g.bsa''] = Some (regular_entry (bsa_header 104 @ [1, 2, 3, 4]))"
  "example_fs [''h.bsa''] = Some (regular_entry (bsa_header 104 @ [9, 9, 9, 9]))"
  by (simp_all add: example_fs_def)

lemma regular_entry_simps:
  "is_file (regular_entry bs)" "consistent (regular_entry bs)"
  "st_size (regular_entry bs) = length bs" "content (regular_entry bs) = bs"
  by (simp_all add: regular_entry_def consistent_def)

lemma bsa_file_simps:
  "is_file (bsa_file v)" "consistent (bsa_file v)" "st_size (bsa_file v) = 8"
  "content (bsa_file v) = [0x42, 0x53, 0x41, 0x00, v, 0, 0, 0]"
  by (simp_all add: bsa_file_def bsa_header_def regular_entry_simps)

lemma example_checker_simps:
  "organizer (example_checker game files) =
     Some \<lparr>findFiles = (\<lambda>dir pattern. files), gameName = game\<rparr>"
  "archives (example_checker game files) = []"
  "getCurrentGame (example_checker game files) = Inr game"
  by (simp_all add: example_checker_def init_def new_checker_def getCurrentGame_def)

lemma example_suffix:
  "suffix [''a.bsa''] = ''.bsa''" "suffix [''b.ba2''] = ''.ba2''"
  "suffix [''c.bsa''] = ''.bsa''" "suffix [''d.bsa''] = ''.bsa''"
  by (simp_all add: suffix_def path_name_def Let_def)

lemma example_tables:
  "gameToExt ''Skyrim'' = Some ''.bsa''" "gameToFmt ''Skyrim'' = Some FO3"
  "gameToExt ''Enderal'' = None"
  by (simp_all add: gameToExt_def gameToFmt_def supportedGames_def)

lemma example_regular:
  "regular_file example_fs [''a.bsa'']" "regular_file example_fs [''b.ba2'']"
  "regular_file example_fs [''c.bsa'']" "\<not> regular_file example_fs [''d.bsa'']"
  by (simp_all add: regular_file_def example_entries bsa_file_simps regular_entry_simps)

lemma example_sniff:
  "result_of (getFileFormat [''a.bsa'']) example_fs = Inr FO3"
  "trace_of (getFileFormat [''a.bsa'']) example_fs =
     [Call_getFileFormat [''a.bsa''], EvStat [''a.bsa''], EvOpen [''a.bsa''] ''rb'',
      EvRead [''a.bsa''] 0 4, EvRead [''a.bsa''] 4 4]"
  "result_of (getFileFormat [''c.bsa'']) example_fs = Inr SSE"
  "trace_of (getFileFormat [''c.bsa'']) example_fs =
     [Call_getFileFormat [''c.bsa''], EvStat [''c.bsa''], EvOpen [''c.bsa''] ''rb'',
      EvRead [''c.bsa''] 0 4, EvRead [''c.bsa''] 4 4]"
  by (simp_all add: sniff_regular [of example_fs _ "bsa_file _"] example_entries bsa_file_simps
      le_u32_def magic_to_format_def version_to_format_def)

lemma example_validate:
  "result_of (validateArchive (example_checker ''Skyrim'' files) [''a.bsa'']) example_fs = Inr NONE"
  "result_of (validateArchive (example_checker ''Skyrim'' files) [''b.ba2'']) example_fs =
     Inr WRONG_EXTENSION"
  "result_of (validateArchive (example_checker ''Skyrim'' files) [''c.bsa'']) example_fs =
     Inr WRONG_FORMAT"
  "result_of (validateArchive (example_checker game files) [''d.bsa'']) example_fs =
     Inr NOT_A_FILE"
  "result_of (validateArchive (example_checker ''Enderal'' files) [''a.bsa'']) example_fs =
     Inl KeyError"
  by (simp_all add: validate_result example_checker_simps example_suffix example_tables
      example_regular example_sniff)

lemma example_validate_trace:
  "trace_of (validateArchive (example_checker ''Skyrim'' files) [''a.bsa'']) example_fs =
     [EvIsFile [''a.bsa''], Call_getFileFormat [''a.bsa''], EvStat [''a.bsa''],
      EvOpen [''a.bsa''] ''rb'', EvRead [''a.bsa''] 0 4, EvRead [''a.bsa''] 4 4]"
  "trace_of (validateArchive (example_checker ''Skyrim'' files) [''b.ba2'']) example_fs =
     [EvIsFile [''b.ba2'']]"
  "trace_of (validateArchive (example_checker ''Skyrim'' files) [''c.bsa'']) example_fs =
     [EvIsFile [''c.bsa''], Call_getFileFormat [''c.bsa''], EvStat [''c.bsa''],
      EvOpen [''c.bsa''] ''rb'', EvRead [''c.bsa''] 0 4, EvRead [''c.bsa''] 4 4]"
  "trace_of (validateArchive (example_checker game files) [''d.bsa'']) example_fs =
     [EvIsFile [''d.bsa'']]"
  "trace_of (validateArchive (example_checker ''Enderal'' files) [''a.bsa'']) example_fs =
     [EvIsFile [''a.bsa'']]"
  by (simp_all add: validate_trace example_checker_simps example_suffix example_tables
      example_regular example_sniff)

lemma example_scan:
  "activeProblems (example_checker ''Skyrim'' example_files) \<lparr>fs = example_fs, log = []\<rparr> =
     (Inr [2, 3, 4],
      (example_checker ''Skyrim'' example_files)
        \<lparr>archives := [\<lparr>path = [''b.ba2''], problem = WRONG_EXTENSION\<rparr>,
                      \<lparr>path = [''c.bsa''], problem = WRONG_FORMAT\<rparr>,
                      \<lparr>path = [''d.bsa''], problem = NOT_A_FILE\<rparr>]\<rparr>,
      \<lparr>fs = example_fs,
       log = [EvIsFile [''a.bsa''], Call_getFileFormat [''a.bsa''], EvStat [''a.bsa''],
              EvOpen [''a.bsa''] ''rb'', EvRead [''a.bsa''] 0 4, EvRead [''a.bsa''] 4 4,
              EvIsFile [''b.ba2''],
              EvIsFile [''c.bsa''], Call_getFileFormat [''c.bsa''], EvStat [''c.bsa''],
              EvOpen [''c.bsa''] ''rb'', EvRead [''c.bsa''] 0 4, EvRead [''c.bsa''] 4 4,
              EvIsFile [''d.bsa'']]\<rparr>)"
  by (simp add: activeProblems_run listBadArchives_Some [OF example_checker_simps(1)]
      example_files_def loop_result_Cons loop_trace_Cons loop_Nil example_validate
      example_validate_trace sorted_list_of_set_sort_remdups)

lemma example_scan_enderal:
  "activeProblems (example_checker ''Enderal'' [[''d.bsa''], [''a.bsa'']])
       \<lparr>fs = example_fs, log = []\<rparr> =
     (Inl KeyError, example_checker ''Enderal'' [[''d.bsa''], [''a.bsa'']],
      \<lparr>fs = example_fs, log = [EvIsFile [''d.bsa''], EvIsFile [''a.bsa'']]\<rparr>)"
  by (simp add: activeProblems_run listBadArchives_Some [OF example_checker_simps(1)]
      loop_result_Cons loop_trace_Cons loop_Nil example_validate example_validate_trace)

section \<open>The claims\<close>

text \<open>
  Claim C10. The plugin never offers a guided fix: \<open>hasGuidedFix\<close> answers \<open>False\<close> for
  every key that decodes to a problem other than \<open>NONE\<close>, raises \<open>IndexError\<close> for the
  key of \<open>NONE\<close>, and \<open>startGuidedFix\<close> raises \<open>ValueError\<close> for every key.
\<close>

theorem guided_fix_never_offered:
  "(\<forall>key pr. Problem_of key = Inr pr \<and> pr \<noteq> NONE \<longrightarrow> hasGuidedFix self key = Inr False) \<and>
   hasGuidedFix self (Problem_value NONE) = Inl IndexError \<and>
   (\<forall>key. startGuidedFix self key = Inl ValueError)"
  by (simp add: hasGuidedFix_def startGuidedFix_def Problem_of_def)

theorem guided_fix_never_offered_witness:
  "Problem_of 3 = Inr WRONG_EXTENSION \<and> WRONG_EXTENSION \<noteq> NONE \<and>
   hasGuidedFix (example_checker ''Skyrim'' []) 3 = Inr False"
proof -
  have h: "Problem_of 3 = Inr WRONG_EXTENSION \<and> WRONG_EXTENSION \<noteq> NONE"
    by (simp add: Problem_of_def)
  from guided_fix_never_offered [of "example_checker ''Skyrim'' []"] h
  have "hasGuidedFix (example_checker ''Skyrim'' []) 3 = Inr False"
    by blast
  with h show ?thesis by simp
qed

text \<open>
  Claim C1. On a regular file of at least four bytes the sniffer decodes the first four
  bytes as a little-endian number and maps it through the magic table; only for the magic
  of the \<open>BSA\<close> family (and a file of at least eight bytes) does it read the next four
  bytes, decode them the same way and map them through the version table. The reads it
  performs are listed with their offsets.
\<close>

theorem getFileFormat_decodes:
  assumes "fsys p = Some e" and "is_file e" and "consistent e" and "4 \<le> st_size e"
  shows "result_of (getFileFormat p) fsys =
      Inr (let fmt = magic_to_format (le_u32 (take 4 (content e))) in
           if fmt = TES4 then
             (if st_size e < 8 then UNKNOWN
              else version_to_format (le_u32 (take 4 (drop 4 (content e)))))
           else fmt) \<and>
    filter is_read (trace_of (getFileFormat p) fsys) =
      (if le_u32 (take 4 (content e)) = 0x00415342 \<and> 8 \<le> st_size e
       then [EvRead p 0 4, EvRead p 4 4] else [EvRead p 0 4])"
proof -
  have tes4: "magic_to_format m = TES4 \<longleftrightarrow> m = 0x00415342" for m
    by (simp add: magic_to_format_def)
  show ?thesis
    using assms(4) by (simp add: sniff_regular [of fsys p e, OF assms(1-3)] tes4)
qed

theorem getFileFormat_decodes_witness:
  "example_fs [''c.bsa''] = Some (bsa_file 105) \<and> is_file (bsa_file 105) \<and>
   consistent (bsa_file 105) \<and> 4 \<le> st_size (bsa_file 105) \<and>
   result_of (getFileFormat [''c.bsa'']) example_fs = Inr SSE \<and>
   filter is_read (trace_of (getFileFormat [''c.bsa'']) example_fs) =
     [EvRead [''c.bsa''] 0 4, EvRead [''c.bsa''] 4 4]"
proof -
  have h: "example_fs [''c.bsa''] = Some (bsa_file 105)" "is_file (bsa_file 105)"
    "consistent (bsa_file 105)" "4 \<le> st_size (bsa_file 105)"
    by (simp_all add: example_entries bsa_file_simps)
  show ?thesis
    using h getFileFormat_decodes [of example_fs "[''c.bsa'']" "bsa_file 105", OF h]
    by (simp add: bsa_file_simps le_u32_def magic_to_format_def version_to_format_def)
qed

text \<open>
  Claim C3. The sniffer asks for at most eight bytes on every input, and on every regular
  file whose size is the number of its bytes it returns a member of \<open>FileFormat\<close>.
\<close>

theorem getFileFormat_reads_at_most_8:
  "bytes_requested (trace_of (getFileFormat p) fsys) \<le> 8 \<and>
   (fsys p = Some e \<and> is_file e \<and> consistent e \<longrightarrow>
      result_of (getFileFormat p) fsys \<in> Inr ` {UNKNOWN, TES3, TES4, FO3, SSE, FO4})"
proof
  show "bytes_requested (trace_of (getFileFormat p) fsys) \<le> 8"
    using sniff_trace_shapes [of p fsys] by auto
next
  have all: "x \<in> {UNKNOWN, TES3, TES4, FO3, SSE, FO4}" for x
    by (cases x) simp_all
  show "fsys p = Some e \<and> is_file e \<and> consistent e \<longrightarrow>
      result_of (getFileFormat p) fsys \<in> Inr ` {UNKNOWN, TES3, TES4, FO3, SSE, FO4}"
  proof
    assume h: "fsys p = Some e \<and> is_file e \<and> consistent e"
    then have "\<exists>x. result_of (getFileFormat p) fsys = Inr x"
      using sniff_regular(1) [of fsys p e] by simp
    then obtain x where x: "result_of (getFileFormat p) fsys = Inr x" ..
    have "Inr x \<in> Inr ` {UNKNOWN, TES3, TES4, FO3, SSE, FO4}"
      using all [of x] by (rule imageI)
    then show "result_of (getFileFormat p) fsys \<in> Inr ` {UNKNOWN, TES3, TES4, FO3, SSE, FO4}"
      by (simp only: x)
  qed
qed

theorem getFileFormat_reads_at_most_8_witness:
  "example_fs [''a.bsa''] = Some (bsa_file 104) \<and> is_file (bsa_file 104) \<and>
   consistent (bsa_file 104) \<and>
   result_of (getFileFormat [''a.bsa'']) example_fs \<in> Inr ` {UNKNOWN, TES3, TES4, FO3, SSE, FO4} \<and>
   bytes_requested (trace_of (getFileFormat [''a.bsa'']) example_fs) \<le> 8"
  using getFileFormat_reads_at_most_8 [of "[''a.bsa'']" example_fs "bsa_file 104"]
  by (simp add: example_entries bsa_file_simps)

text \<open>
  Claim C4. The sniffer is stateless and single-pass: on two regular files that agree in
  size and in their first eight bytes it gives the same result; its reads are consecutive
  from offset 0; and from any world it returns the result of a fresh run and leaves the
  file system as it was. It takes no plugin object and returns none, so no field of the
  plugin is touched.
\<close>

theorem getFileFormat_determined_by_header:
  "(fsys1 p1 = Some e1 \<and> fsys2 p2 = Some e2 \<and> is_file e1 \<and> is_file e2 \<and>
      st_size e1 = st_size e2 \<and> take 8 (content e1) = take 8 (content e2) \<longrightarrow>
      result_of (getFileFormat p1) fsys1 = result_of (getFileFormat p2) fsys2) \<and>
   filter is_read (trace_of (getFileFormat p) fsys) \<in>
      {[], [EvRead p 0 4], [EvRead p 0 4, EvRead p 4 4]} \<and>
   (\<forall>w. fst (getFileFormat p w) = result_of (getFileFormat p) (fs w) \<and>
        fs (snd (getFileFormat p w)) = fs w)"
proof (intro conjI impI allI)
  assume "fsys1 p1 = Some e1 \<and> fsys2 p2 = Some e2 \<and> is_file e1 \<and> is_file e2 \<and>
      st_size e1 = st_size e2 \<and> take 8 (content e1) = take 8 (content e2)"
  then have "result_of (getFileFormat p1) fsys1 =
      result_of (getFileFormat p2) fsys2"
    using sniff_result_header [of fsys1 p1 e1 True "st_size e2" "take 8 (content e2)"]
      sniff_result_header [of fsys2 p2 e2 True "st_size e2" "take 8 (content e2)"]
    by presburger
  then show "result_of (getFileFormat p1) fsys1 = result_of (getFileFormat p2) fsys2" .
next
  show "filter is_read (trace_of (getFileFormat p) fsys) \<in>
      {[], [EvRead p 0 4], [EvRead p 0 4, EvRead p 4 4]}"
    using sniff_trace_shapes [of p fsys] by auto
next
  fix w
  show "fst (getFileFormat p w) = result_of (getFileFormat p) (fs w)"
    by (simp add: framedD [OF framed_getFileFormat, of p w])
  show "fs (snd (getFileFormat p w)) = fs w"
    by (simp add: framedD [OF framed_getFileFormat, of p w])
qed

theorem getFileFormat_determined_by_header_witness:
  "example_fs [''g.bsa''] = Some (regular_entry (bsa_header 104 @ [1, 2, 3, 4])) \<and>
   example_fs [''h.bsa''] = Some (regular_entry (bsa_header 104 @ [9, 9, 9, 9])) \<and>
   is_file (regular_entry (bsa_header 104 @ [1, 2, 3, 4])) \<and>
   is_file (regular_entry (bsa_header 104 @ [9, 9, 9, 9])) \<and>
   st_size (regular_entry (bsa_header 104 @ [1, 2, 3, 4])) =
     st_size (regular_entry (bsa_header 104 @ [9, 9, 9, 9])) \<and>
   take 8 (content (regular_entry (bsa_header 104 @ [1, 2, 3, 4]))) =
     take 8 (content (regular_entry (bsa_header 104 @ [9, 9, 9, 9]))) \<and>
   content (regular_entry (bsa_header 104 @ [1, 2, 3, 4])) \<noteq>
     content (regular_entry (bsa_header 104 @ [9, 9, 9, 9])) \<and>
   result_of (getFileFormat [''g.bsa'']) example_fs =
     result_of (getFileFormat [''h.bsa'']) example_fs"
  using getFileFormat_determined_by_header [of example_fs "[''g.bsa'']"
      "regular_entry (bsa_header 104 @ [1, 2, 3, 4])" example_fs "[''h.bsa'']"
      "regular_entry (bsa_header 104 @ [9, 9, 9, 9])"]
  by (simp add: example_entries regular_entry_simps bsa_header_def)

text \<open>
  Claim C8. The sniffer never reads past the end of a file. A file shorter than four bytes
  gives \<open>UNKNOWN\<close> after the \<open>stat\<close> alone; a file of four to seven bytes that starts with
  the magic of the \<open>BSA\<close> family gives \<open>UNKNOWN\<close> after the first read alone; and on every
  regular file whose size is the number of its bytes no unpack fails and every read ends
  inside the file.
\<close>

theorem getFileFormat_guards:
  "(fsys p = Some e \<and> st_size e < 4 \<longrightarrow>
      result_of (getFileFormat p) fsys = Inr UNKNOWN \<and>
      trace_of (getFileFormat p) fsys = [Call_getFileFormat p, EvStat p]) \<and>
   (fsys p = Some e \<and> is_file e \<and> consistent e \<and> 4 \<le> st_size e \<and> st_size e < 8 \<and>
    le_u32 (take 4 (content e)) = 0x00415342 \<longrightarrow>
      result_of (getFileFormat p) fsys = Inr UNKNOWN \<and>
      trace_of (getFileFormat p) fsys =
        [Call_getFileFormat p, EvStat p, EvOpen p ''rb'', EvRead p 0 4]) \<and>
   (fsys p = Some e \<and> is_file e \<and> consistent e \<longrightarrow>
      result_of (getFileFormat p) fsys \<noteq> Inl StructError \<and>
      (\<forall>q off n. EvRead q off n \<in> set (trace_of (getFileFormat p) fsys) \<longrightarrow>
         q = p \<and> off + n \<le> length (content e)))"
proof (intro conjI impI)
  assume h: "fsys p = Some e \<and> st_size e < 4"
  then show "result_of (getFileFormat p) fsys = Inr UNKNOWN"
    by (simp add: result_of_def getFileFormat_unfold [of _ p e])
  from h show "trace_of (getFileFormat p) fsys = [Call_getFileFormat p, EvStat p]"
    by (simp add: trace_of_def getFileFormat_unfold [of _ p e])
next
  assume h: "fsys p = Some e \<and> is_file e \<and> consistent e \<and> 4 \<le> st_size e \<and> st_size e < 8 \<and>
    le_u32 (take 4 (content e)) = 0x00415342"
  then show "result_of (getFileFormat p) fsys = Inr UNKNOWN"
    by (simp add: sniff_regular(1) [of fsys p e] magic_to_format_def)
  from h show "trace_of (getFileFormat p) fsys =
        [Call_getFileFormat p, EvStat p, EvOpen p ''rb'', EvRead p 0 4]"
    by (simp add: sniff_regular(2) [of fsys p e])
next
  assume h: "fsys p = Some e \<and> is_file e \<and> consistent e"
  then show "result_of (getFileFormat p) fsys \<noteq> Inl StructError"
    by (simp add: sniff_regular(1) [of fsys p e])
  from h have len: "length (content e) = st_size e"
    by (simp add: consistent_def)
  from h show "\<forall>q off n. EvRead q off n \<in> set (trace_of (getFileFormat p) fsys) \<longrightarrow>
         q = p \<and> off + n \<le> length (content e)"
    by (auto simp: sniff_regular(2) [of fsys p e] len split: if_splits)
qed

theorem getFileFormat_guards_witness:
  "(example_fs [''e.bsa''] = Some (regular_entry [0x42, 0x53]) \<and>
    st_size (regular_entry [0x42, 0x53]) < 4 \<and>
    result_of (getFileFormat [''e.bsa'']) example_fs = Inr UNKNOWN \<and>
    trace_of (getFileFormat [''e.bsa'']) example_fs =
      [Call_getFileFormat [''e.bsa''], EvStat [''e.bsa'']]) \<and>
   (example_fs [''f.bsa''] = Some (regular_entry [0x42, 0x53, 0x41, 0x00, 104, 0]) \<and>
    is_file (regular_entry [0x42, 0x53, 0x41, 0x00, 104, 0]) \<and>
    consistent (regular_entry [0x42, 0x53, 0x41, 0x00, 104, 0]) \<and>
    4 \<le> st_size (regular_entry [0x42, 0x53, 0x41, 0x00, 104, 0]) \<and>
    st_size (regular_entry [0x42, 0x53, 0x41, 0x00, 104, 0]) < 8 \<and>
    le_u32 (take 4 (content (regular_entry [0x42, 0x53, 0x41, 0x00, 104, 0]))) = 0x00415342 \<and>
    result_of (getFileFormat [''f.bsa'']) example_fs = Inr UNKNOWN \<and>
    trace_of (getFileFormat [''f.bsa'']) example_fs =
      [Call_getFileFormat [''f.bsa''], EvStat [''f.bsa''], EvOpen [''f.bsa''] ''rb'',
       EvRead [''f.bsa''] 0 4]) \<and>
   (example_fs [''a.bsa''] = Some (bsa_file 104) \<and> is_file (bsa_file 104) \<and>
    consistent (bsa_file 104) \<and>
    result_of (getFileFormat [''a.bsa'']) example_fs \<noteq> Inl StructError \<and>
    EvRead [''a.bsa''] 4 4 \<in> set (trace_of (getFileFormat [''a.bsa'']) example_fs) \<and>
    4 + 4 \<le> length (content (bsa_file 104)))"
proof -
  have a: "example_fs [''a.bsa''] = Some (bsa_file 104)" "is_file (bsa_file 104)"
    "consistent (bsa_file 104)"
    by (simp_all add: example_entries bsa_file_simps)
  have r: "EvRead [''a.bsa''] 4 4 \<in> set (trace_of (getFileFormat [''a.bsa'']) example_fs)"
    by (simp add: sniff_regular(2) [of example_fs "[''a.bsa'']" "bsa_file 104", OF a]
        bsa_file_simps le_u32_def magic_to_format_def)
  have m: "le_u32 (take 4 (content (regular_entry [0x42, 0x53, 0x41, 0x00, 104, 0]))) = 0x00415342"
    by (simp add: regular_entry_simps le_u32_def)
  show ?thesis
    using a r m
      getFileFormat_guards [of example_fs "[''e.bsa'']" "regular_entry [0x42, 0x53]"]
      getFileFormat_guards [of example_fs "[''f.bsa'']"
        "regular_entry [0x42, 0x53, 0x41, 0x00, 104, 0]"]
      getFileFormat_guards [of example_fs "[''a.bsa'']" "bsa_file 104"]
    by (simp add: example_entries regular_entry_simps bsa_file_simps)
qed

text \<open>
  Claim C2. For a regular file and a current game that the tables hold, validation returns
  \<open>WRONG_EXTENSION\<close> exactly when the suffix differs from the extension of the game,
  \<open>WRONG_FORMAT\<close> exactly when the suffix matches and the sniffed format differs from the
  format of the game, and \<open>NONE\<close> otherwise: the archive is flagged if and only if its
  extension or its header format does not fit the game.
\<close>

theorem validateArchive_flags:
  assumes "organizer self = Some org" and "gameName org \<in> supportedGames"
    and "fsys p = Some e" and "is_file e" and "consistent e"
  shows "\<exists>ext expected fmt.
      gameToExt (gameName org) = Some ext \<and> gameToFmt (gameName org) = Some expected \<and>
      result_of (getFileFormat p) fsys = Inr fmt \<and>
      result_of (validateArchive self p) fsys =
        Inr (if suffix p \<noteq> ext then WRONG_EXTENSION
             else if fmt \<noteq> expected then WRONG_FORMAT else NONE) \<and>
      (result_of (validateArchive self p) fsys = Inr WRONG_EXTENSION \<longleftrightarrow> suffix p \<noteq> ext) \<and>
      (result_of (validateArchive self p) fsys = Inr WRONG_FORMAT \<longleftrightarrow>
         suffix p = ext \<and> fmt \<noteq> expected) \<and>
      (result_of (validateArchive self p) fsys \<noteq> Inr NONE \<longleftrightarrow>
         suffix p \<noteq> ext \<or> fmt \<noteq> expected)"
proof -
  from assms(2) obtain ext where ext: "gameToExt (gameName org) = Some ext"
    using dom_gameToExt by blast
  from assms(2) obtain expected where expected: "gameToFmt (gameName org) = Some expected"
    using dom_gameToFmt by blast
  obtain fmt where fmt: "result_of (getFileFormat p) fsys = Inr fmt"
    using sniff_regular(1) [of fsys p e, OF assms(3-5)] by simp
  have game: "getCurrentGame self = Inr (gameName org)"
    using assms(1) by (simp add: getCurrentGame_def)
  have reg: "regular_file fsys p"
    using assms(3,4) by (simp add: regular_file_def)
  have v: "result_of (validateArchive self p) fsys =
        Inr (if suffix p \<noteq> ext then WRONG_EXTENSION
             else if fmt \<noteq> expected then WRONG_FORMAT else NONE)"
    by (simp add: validate_result game reg ext expected fmt)
  show ?thesis
    apply (rule exI [of _ ext], rule exI [of _ expected], rule exI [of _ fmt])
    apply (simp add: ext expected fmt v)
    done
qed

theorem validateArchive_flags_witness:
  "organizer (example_checker ''Skyrim'' example_files) =
     Some \<lparr>findFiles = (\<lambda>dir pattern. example_files), gameName = ''Skyrim''\<rparr> \<and>
   gameName \<lparr>findFiles = (\<lambda>dir pattern. example_files), gameName = ''Skyrim''\<rparr> \<in> supportedGames \<and>
   example_fs [''c.bsa''] = Some (bsa_file 105) \<and> is_file (bsa_file 105) \<and>
   consistent (bsa_file 105) \<and>
   result_of (validateArchive (example_checker ''Skyrim'' example_files) [''c.bsa'']) example_fs =
     Inr WRONG_FORMAT"
proof -
  have h: "organizer (example_checker ''Skyrim'' example_files) =
     Some \<lparr>findFiles = (\<lambda>dir pattern. example_files), gameName = ''Skyrim''\<rparr>"
    "gameName \<lparr>findFiles = (\<lambda>dir pattern. example_files), gameName = ''Skyrim''\<rparr> \<in> supportedGames"
    "example_fs [''c.bsa''] = Some (bsa_file 105)" "is_file (bsa_file 105)"
    "consistent (bsa_file 105)"
    by (simp_all add: example_checker_simps supported_members example_entries bsa_file_simps)
  have "result_of (validateArchive (example_checker ''Skyrim'' example_files) [''c.bsa''])
          example_fs = Inr WRONG_FORMAT"
    using validateArchive_flags [of "example_checker ''Skyrim'' example_files" _ example_fs
        "[''c.bsa'']" "bsa_file 105", OF h]
    by (auto simp: example_tables example_sniff example_suffix)
  with h show ?thesis by simp
qed

text \<open>
  Claim C9. The list \<open>activeProblems\<close> returns holds every value at most once and never the
  value of \<open>NONE\<close>, whatever the file system and the current game.
\<close>

theorem activeProblems_keys:
  assumes "activeProblems self w = (Inr keys, self', w')"
  shows "distinct keys \<and> Problem_value NONE \<notin> set keys"
proof -
  from assms obtain xs
    where xs: "result_of (listBadArchives self) (fs w) = Inr xs"
      and keys: "keys = sorted_list_of_set (set (map (\<lambda>x. Problem_value (problem x)) xs))"
    by (auto simp: activeProblems_run split: sum.splits)
  from xs obtain org where org: "organizer self = Some org"
    by (cases "organizer self") (simp_all add: listBadArchives_None)
  have none: "\<forall>x \<in> set xs. problem x \<noteq> NONE"
    using xs loop_no_NONE [of self "findFiles org [] ''*.b[sa][a2]''" "fs w" xs]
    by (simp add: listBadArchives_Some [OF org])
  have one: "Problem_value pr = 1 \<longleftrightarrow> pr = NONE" for pr
    by (cases pr) simp_all
  have "Problem_value NONE \<notin> set keys"
    using none by (auto simp: keys one)
  moreover have "distinct keys"
    by (simp add: keys)
  ultimately show ?thesis by simp
qed

theorem activeProblems_keys_witness:
  "activeProblems (example_checker ''Skyrim'' example_files) \<lparr>fs = example_fs, log = []\<rparr> =
     (Inr [2, 3, 4],
      (example_checker ''Skyrim'' example_files)
        \<lparr>archives := [\<lparr>path = [''b.ba2''], problem = WRONG_EXTENSION\<rparr>,
                      \<lparr>path = [''c.bsa''], problem = WRONG_FORMAT\<rparr>,
                      \<lparr>path = [''d.bsa''], problem = NOT_A_FILE\<rparr>]\<rparr>,
      \<lparr>fs = example_fs,
       log = [EvIsFile [''a.bsa''], Call_getFileFormat [''a.bsa''], EvStat [''a.bsa''],
              EvOpen [''a.bsa''] ''rb'', EvRead [''a.bsa''] 0 4, EvRead [''a.bsa''] 4 4,
              EvIsFile [''b.ba2''],
              EvIsFile [''c.bsa''], Call_getFileFormat [''c.bsa''], EvStat [''c.bsa''],
              EvOpen [''c.bsa''] ''rb'', EvRead [''c.bsa''] 0 4, EvRead [''c.bsa''] 4 4,
              EvIsFile [''d.bsa'']]\<rparr>) \<and>
   (distinct [2, 3, 4 :: int] \<and> Problem_value NONE \<notin> set [2, 3, 4])"
  by (rule conjI [OF example_scan activeProblems_keys [OF example_scan]])

text \<open>
  Claim C6, as stated, fails on a call that raises: under a game the tables do not hold,
  the first regular file raises \<open>KeyError\<close>, the assignment to the stored list is never
  reached, and a file seen before it whose validation yields \<open>NOT_A_FILE\<close> is missing
  from the stored list.
\<close>

theorem activeProblems_rebuilds_archives_counterexample:
  "fst (activeProblems (example_checker ''Enderal'' [[''d.bsa''], [''a.bsa'']])
          \<lparr>fs = example_fs, log = []\<rparr>) = Inl KeyError \<and>
   archives (fst (snd (activeProblems (example_checker ''Enderal'' [[''d.bsa''], [''a.bsa'']])
          \<lparr>fs = example_fs, log = []\<rparr>))) = [] \<and>
   expected_archives (example_checker ''Enderal'' [[''d.bsa''], [''a.bsa'']]) example_fs
       [[''d.bsa''], [''a.bsa'']] = [\<lparr>path = [''d.bsa''], problem = NOT_A_FILE\<rparr>] \<and>
   archives (fst (snd (activeProblems (example_checker ''Enderal'' [[''d.bsa''], [''a.bsa'']])
          \<lparr>fs = example_fs, log = []\<rparr>))) \<noteq>
     expected_archives (example_checker ''Enderal'' [[''d.bsa''], [''a.bsa'']]) example_fs
       [[''d.bsa''], [''a.bsa'']]"
  by (simp add: example_scan_enderal expected_archives_def map_filter_simps example_validate
      example_checker_simps)

text \<open>
  Claim C6, amended. Every call of \<open>activeProblems\<close> that returns stores exactly the
  enumerated files whose validation yields a problem other than \<open>NONE\<close>, each with its
  problem, in enumeration order; a call that raises leaves the stored list as it was.
\<close>

theorem activeProblems_rebuilds_archives:
  "(organizer self = Some org \<and> activeProblems self w = (Inr keys, self', w') \<longrightarrow>
      archives self' = expected_archives self (fs w) (findFiles org [] ''*.b[sa][a2]'')) \<and>
   (activeProblems self w = (Inl err, self', w') \<longrightarrow> archives self' = archives self)"
proof (intro conjI impI)
  assume h: "organizer self = Some org \<and> activeProblems self w = (Inr keys, self', w')"
  then obtain xs
    where xs: "result_of (listBadArchives self) (fs w) = Inr xs" and s: "self' = self\<lparr>archives := xs\<rparr>"
    by (auto simp: activeProblems_run split: sum.splits)
  from h xs have "xs = expected_archives self (fs w) (findFiles org [] ''*.b[sa][a2]'')"
    using loop_expected [of self "findFiles org [] ''*.b[sa][a2]''" "fs w" xs]
    by (simp add: listBadArchives_Some)
  then show "archives self' = expected_archives self (fs w) (findFiles org [] ''*.b[sa][a2]'')"
    by (simp add: s)
next
  assume "activeProblems self w = (Inl err, self', w')"
  then show "archives self' = archives self"
    by (auto simp: activeProblems_run split: sum.splits)
qed

theorem activeProblems_rebuilds_archives_witness:
  "(organizer (example_checker ''Skyrim'' example_files) =
      Some \<lparr>findFiles = (\<lambda>dir pattern. example_files), gameName = ''Skyrim''\<rparr> \<and>
    fst (activeProblems (example_checker ''Skyrim'' example_files)
           \<lparr>fs = example_fs, log = []\<rparr>) = Inr [2, 3, 4] \<and>
    archives (fst (snd (activeProblems (example_checker ''Skyrim'' example_files)
           \<lparr>fs = example_fs, log = []\<rparr>))) =
      expected_archives (example_checker ''Skyrim'' example_files) example_fs example_files) \<and>
   (fst (activeProblems (example_checker ''Enderal'' [[''d.bsa''], [''a.bsa'']])
           \<lparr>fs = example_fs, log = []\<rparr>) = Inl KeyError \<and>
    archives (fst (snd (activeProblems (example_checker ''Enderal'' [[''d.bsa''], [''a.bsa'']])
           \<lparr>fs = example_fs, log = []\<rparr>))) =
      archives (example_checker ''Enderal'' [[''d.bsa''], [''a.bsa'']]))"
proof -
  let ?s = "example_checker ''Skyrim'' example_files"
  let ?t = "example_checker ''Enderal'' [[''d.bsa''], [''a.bsa'']]"
  let ?w = "\<lparr>fs = example_fs, log = []\<rparr>"
  have a: "organizer ?s =
      Some \<lparr>findFiles = (\<lambda>dir pattern. example_files), gameName = ''Skyrim''\<rparr>"
    by (simp add: example_checker_simps)
  have b: "activeProblems ?s ?w =
      (Inr [2, 3, 4], fst (snd (activeProblems ?s ?w)), snd (snd (activeProblems ?s ?w)))"
    by (simp add: example_scan)
  have c: "activeProblems ?t ?w =
      (Inl KeyError, fst (snd (activeProblems ?t ?w)), snd (snd (activeProblems ?t ?w)))"
    by (simp add: example_scan_enderal)
  have "archives (fst (snd (activeProblems ?s ?w))) = expected_archives ?s example_fs example_files"
    using activeProblems_rebuilds_archives [of ?s
        "\<lparr>findFiles = (\<lambda>dir pattern. example_files), gameName = ''Skyrim''\<rparr>" ?w
        "[2, 3, 4]" "fst (snd (activeProblems ?s ?w))" "snd (snd (activeProblems ?s ?w))"]
      a b by simp
  moreover have "archives (fst (snd (activeProblems ?t ?w))) = archives ?t"
    using activeProblems_rebuilds_archives [of ?t _ ?w _ "fst (snd (activeProblems ?t ?w))"
        "snd (snd (activeProblems ?t ?w))" KeyError] c by blast
  moreover have "fst (activeProblems ?s ?w) = Inr [2, 3, 4]"
    using b by (metis fst_conv)
  moreover have "fst (activeProblems ?t ?w) = Inl KeyError"
    using c by (metis fst_conv)
  ultimately show ?thesis using a by blast
qed

text \<open>
  Claim C7. A scan changes no file: the file system after \<open>activeProblems\<close> is the one
  before it, on every run, and every access it makes is an \<open>is_file\<close> or \<open>stat\<close> query, an
  open in mode \<open>rb\<close>, or a read inside the first eight bytes. The scan is the only
  operation of the plugin that takes the file system at all.
\<close>

theorem scan_reads_only:
  assumes "activeProblems self w = (r, self', w')"
  shows "fs w' = fs w \<and> (\<forall>ev \<in> set (new_events w w'). read_only_access ev)"
proof -
  from assms have w': "w' = w\<lparr>log := log w @ trace_of (listBadArchives self) (fs w)\<rparr>"
    by (auto simp: activeProblems_run split: sum.splits)
  show ?thesis
    using scan_read_only [of self "fs w"] by (simp add: w')
qed

theorem scan_reads_only_witness:
  "activeProblems (example_checker ''Skyrim'' example_files) \<lparr>fs = example_fs, log = []\<rparr> =
     (Inr [2, 3, 4],
      (example_checker ''Skyrim'' example_files)
        \<lparr>archives := [\<lparr>path = [''b.ba2''], problem = WRONG_EXTENSION\<rparr>,
                      \<lparr>path = [''c.bsa''], problem = WRONG_FORMAT\<rparr>,
                      \<lparr>path = [''d.bsa''], problem = NOT_A_FILE\<rparr>]\<rparr>,
      \<lparr>fs = example_fs,
       log = [EvIsFile [''a.bsa''], Call_getFileFormat [''a.bsa''], EvStat [''a.bsa''],
              EvOpen [''a.bsa''] ''rb'', EvRead [''a.bsa''] 0 4, EvRead [''a.bsa''] 4 4,
              EvIsFile [''b.ba2''],
              EvIsFile [''c.bsa''], Call_getFileFormat [''c.bsa''], EvStat [''c.bsa''],
              EvOpen [''c.bsa''] ''rb'', EvRead [''c.bsa''] 0 4, EvRead [''c.bsa''] 4 4,
              EvIsFile [''d.bsa'']]\<rparr>) \<and>
   EvRead [''c.bsa''] 4 4 \<in>
     set (new_events \<lparr>fs = example_fs, log = []\<rparr>
       (snd (snd (activeProblems (example_checker ''Skyrim'' example_files)
          \<lparr>fs = example_fs, log = []\<rparr>)))) \<and>
   read_only_access (EvRead [''c.bsa''] 4 4) \<and>
   fs (snd (snd (activeProblems (example_checker ''Skyrim'' example_files)
          \<lparr>fs = example_fs, log = []\<rparr>))) = example_fs"
proof -
  let ?s = "example_checker ''Skyrim'' example_files"
  let ?w = "\<lparr>fs = example_fs, log = []\<rparr>"
  have run: "activeProblems ?s ?w =
      (fst (activeProblems ?s ?w), fst (snd (activeProblems ?s ?w)),
       snd (snd (activeProblems ?s ?w)))"
    by simp
  note ro = scan_reads_only [OF run]
  have mem: "EvRead [''c.bsa''] 4 4 \<in> set (new_events ?w (snd (snd (activeProblems ?s ?w))))"
    by (simp add: example_scan new_events_def)
  from ro mem have acc: "read_only_access (EvRead [''c.bsa''] 4 4)"
    by blast
  from ro have frame: "fs (snd (snd (activeProblems ?s ?w))) = example_fs"
    by simp
  show ?thesis
    by (intro conjI example_scan mem acc frame)
qed

text \<open>
  Claim C5, as stated, fails: under Skyrim an enumerated \<open>.ba2\<close> file is rejected for its
  extension and the sniffer is never invoked on it.
\<close>

theorem sniffer_once_per_file_counterexample:
  "organizer (example_checker ''Skyrim'' example_files) =
     Some \<lparr>findFiles = (\<lambda>dir pattern. example_files), gameName = ''Skyrim''\<rparr> \<and>
   [''b.ba2''] \<in> set example_files \<and>
   fst (activeProblems (example_checker ''Skyrim'' example_files)
          \<lparr>fs = example_fs, log = []\<rparr>) = Inr [2, 3, 4] \<and>
   count_list
     (new_events \<lparr>fs = example_fs, log = []\<rparr>
       (snd (snd (activeProblems (example_checker ''Skyrim'' example_files)
          \<lparr>fs = example_fs, log = []\<rparr>))))
     (Call_getFileFormat [''b.ba2'']) = 0"
proof -
  have m: "[''b.ba2''] \<in> set example_files"
    by (simp add: example_files_def)
  show ?thesis
    using m by (simp add: example_scan example_checker_simps new_events_def)
qed

text \<open>
  Claim C5, amended. A scan that returns handles the enumerated files one after the other,
  in enumeration order: each is validated once (one \<open>is_file\<close> query), followed by one
  fresh run of the sniffer exactly when the file is regular and its suffix is the extension
  of the current game, and by nothing otherwise. So the sniffer is invoked once per
  enumerated occurrence of such a file and never on any other file, and each invocation
  is the run determined by the file system alone.
\<close>

theorem sniffer_calls_per_file:
  assumes "organizer self = Some org" and "activeProblems self w = (Inr keys, self', w')"
  shows "new_events w w' =
           concat (map (\<lambda>q. EvIsFile q #
                     (if sniffed self (fs w) q then trace_of (getFileFormat q) (fs w) else []))
                   (findFiles org [] ''*.b[sa][a2]'')) \<and>
         count_list (new_events w w') (Call_getFileFormat p) =
           (if sniffed self (fs w) p then count_list (findFiles org [] ''*.b[sa][a2]'') p else 0)"
proof -
  from assms(2) obtain xs
    where xs: "result_of (listBadArchives self) (fs w) = Inr xs"
      and w': "w' = w\<lparr>log := log w @ trace_of (listBadArchives self) (fs w)\<rparr>"
    by (auto simp: activeProblems_run split: sum.splits)
  have l: "result_of (listBadArchives_loop self (findFiles org [] ''*.b[sa][a2]'')) (fs w) = Inr xs"
    using xs by (simp add: listBadArchives_Some [OF assms(1)])
  show ?thesis
    using loop_counts [OF l, of p] loop_trace_concat [OF l]
    by (simp add: w' listBadArchives_Some [OF assms(1)])
qed

theorem sniffer_calls_per_file_witness:
  "organizer (example_checker ''Skyrim'' example_files) =
     Some \<lparr>findFiles = (\<lambda>dir pattern. example_files), gameName = ''Skyrim''\<rparr> \<and>
   fst (activeProblems (example_checker ''Skyrim'' example_files)
          \<lparr>fs = example_fs, log = []\<rparr>) = Inr [2, 3, 4] \<and>
   count_list
     (new_events \<lparr>fs = example_fs, log = []\<rparr>
       (snd (snd (activeProblems (example_checker ''Skyrim'' example_files)
          \<lparr>fs = example_fs, log = []\<rparr>))))
     (Call_getFileFormat [''c.bsa'']) = 1"
proof -
  let ?s = "example_checker ''Skyrim'' example_files"
  let ?w = "\<lparr>fs = example_fs, log = []\<rparr>"
  have a: "organizer ?s =
      Some \<lparr>findFiles = (\<lambda>dir pattern. example_files), gameName = ''Skyrim''\<rparr>"
    by (simp add: example_checker_simps)
  have b: "activeProblems ?s ?w =
      (Inr [2, 3, 4], fst (snd (activeProblems ?s ?w)), snd (snd (activeProblems ?s ?w)))"
    by (simp add: example_scan)
  have sn: "sniffed ?s (fs ?w) [''c.bsa'']"
    by (simp add: sniffed_def example_regular example_checker_simps example_tables
        example_suffix)
  have cnt: "count_list example_files [''c.bsa''] = 1"
    by (simp add: example_files_def)
  have r: "fst (activeProblems ?s ?w) = Inr [2, 3, 4]"
    by (simp add: example_scan)
  have "count_list (new_events ?w (snd (snd (activeProblems ?s ?w))))
          (Call_getFileFormat [''c.bsa'']) = 1"
    using conjunct2 [OF sniffer_calls_per_file [OF a b, of "[''c.bsa'']"]]
    by (simp only: sn cnt if_True IOrganizer.simps)
  with a r show ?thesis by (intro conjI)
qed

end
